theory Spec2Isabelle
  imports Complex_Main "HOL-Library.Word"
begin

unbundle bit_operations_syntax

section \<open>PCM codec\<close>

subsection \<open>JavaScript numbers and typed arrays\<close>

text \<open>
  An element of a \<^verbatim>\<open>Float32Array\<close>, read as a JavaScript number, is a finite
  binary fraction, a NaN or an infinity. Finite values are modelled by the real they
  denote. The only arithmetic the codec does on them is a multiplication by \<open>2 ^ 15\<close>
  and a division of a 16-bit integer by \<open>2 ^ 15\<close>; both are exact in double precision,
  and the quotient is exact in single precision, so no rounding is lost by computing
  in the reals.
\<close>

datatype number = Finite real | NaN | PosInfinity | NegInfinity

type_synonym int16 = "16 word"
type_synonym uint8 = "8 word"

text \<open>\<^verbatim>\<open>data[i] * 32768\<close>\<close>

fun times_32768 :: "number \<Rightarrow> number" where
  "times_32768 (Finite x) = Finite (x * 32768)"
| "times_32768 NaN = NaN"
| "times_32768 PosInfinity = PosInfinity"
| "times_32768 NegInfinity = NegInfinity"

text \<open>Rounding towards zero (\<^verbatim>\<open>truncate\<close> of ECMAScript).\<close>

definition trunc :: "real \<Rightarrow> int" where
  "trunc x = (if 0 \<le> x then \<lfloor>x\<rfloor> else \<lceil>x\<rceil>)"

text \<open>
  Storing a number into an \<^verbatim>\<open>Int16Array\<close> is ECMAScript's \<^verbatim>\<open>ToInt16\<close>: NaN and
  the infinities become 0; a finite number is truncated towards zero and reduced modulo
  \<open>2 ^ 16\<close> into the signed range. \<open>word_of_int\<close> is that reduction, \<open>sint\<close> reads the
  signed value back.
\<close>

fun ToInt16 :: "number \<Rightarrow> int16" where
  "ToInt16 (Finite x) = word_of_int (trunc x)"
| "ToInt16 NaN = 0"
| "ToInt16 PosInfinity = 0"
| "ToInt16 NegInfinity = 0"

text \<open>The loop of \<^verbatim>\<open>createBlob\<close>: \<^verbatim>\<open>int16[i] = data[i] * 32768\<close>.\<close>

definition floatToPcm16_sample :: "number \<Rightarrow> int16" where
  "floatToPcm16_sample x = ToInt16 (times_32768 x)"

definition floatToPcm16 :: "number list \<Rightarrow> int16 list" where
  "floatToPcm16 data = map floatToPcm16_sample data"

text \<open>
  \<^verbatim>\<open>new Uint8Array(int16.buffer)\<close>: the bytes of the same buffer, low byte first
  (typed arrays use the platform's byte order, little-endian on every platform that
  runs a browser).
\<close>

fun Uint8Array_of_Int16Array :: "int16 list \<Rightarrow> uint8 list" where
  "Uint8Array_of_Int16Array [] = []"
| "Uint8Array_of_Int16Array (w # ws) =
     ucast w # ucast (drop_bit 8 w) # Uint8Array_of_Int16Array ws"

datatype error = RangeError | InvalidCharacterError | NotSupportedError | TypeError

text \<open>
  \<^verbatim>\<open>new Int16Array(data.buffer)\<close>: pairs of bytes, low byte first; a buffer of odd
  length raises a RangeError.
\<close>

fun Int16Array_of_buffer :: "uint8 list \<Rightarrow> error + int16 list" where
  "Int16Array_of_buffer [] = Inr []"
| "Int16Array_of_buffer [b] = Inl RangeError"
| "Int16Array_of_buffer (lo # hi # bs) =
     (case Int16Array_of_buffer bs of
        Inl e \<Rightarrow> Inl e
      | Inr ws \<Rightarrow> Inr ((ucast lo OR push_bit 8 (ucast hi)) # ws))"

subsection \<open>decodeAudioData\<close>

record AudioBuffer =
  sampleRate :: real
  channels :: "real list list"

text \<open>\<^verbatim>\<open>buffer.duration\<close>: the number of frames over the sample rate.\<close>

definition duration :: "AudioBuffer \<Rightarrow> real" where
  "duration b = (case channels b of [] \<Rightarrow> 0 | c # _ \<Rightarrow> real (length c) / sampleRate b)"

text \<open>
  \<^verbatim>\<open>decodeAudioData(data, ctx, sampleRate, numChannels)\<close>; the context only creates the
  buffer. The buffer has \<open>length dataInt16 div numChannels\<close> frames (\<^verbatim>\<open>createBuffer\<close>
  truncates the quotient, and a write beyond the end of a channel is ignored); channel
  \<open>c\<close> receives \<^verbatim>\<open>dataInt16[i * numChannels + c] / 32768.0\<close>. \<^verbatim>\<open>createBuffer\<close>
  refuses a buffer of no channels or of no frames, with a NotSupportedError. (It also
  refuses a sample rate or a number of channels that the browser does not support; the
  one call in the source passes 24000 and 1.)
\<close>

definition decodeAudioData :: "uint8 list \<Rightarrow> real \<Rightarrow> nat \<Rightarrow> error + AudioBuffer" where
  "decodeAudioData data rate numChannels =
     (case Int16Array_of_buffer data of
        Inl e \<Rightarrow> Inl e
      | Inr dataInt16 \<Rightarrow>
          if numChannels = 0 then Inl NotSupportedError
          else
            let frameCount = length dataInt16 div numChannels in
            if frameCount = 0 then Inl NotSupportedError
            else
              Inr \<lparr> sampleRate = rate,
                    channels =
                      map (\<lambda>channel.
                             map (\<lambda>i. real_of_int (sint (dataInt16 ! (i * numChannels + channel))) / 32768)
                                 [0 ..< frameCount])
                          [0 ..< numChannels] \<rparr>)"

subsection \<open>Base64\<close>

text \<open>
  \<^verbatim>\<open>encode\<close> and \<^verbatim>\<open>decode\<close> call \<^verbatim>\<open>btoa\<close> and \<^verbatim>\<open>atob\<close>, which are functions
  of the browser and not of the repository. The specification asks for the standard
  alphabet, no line wrapping, and a failure on non-alphabet characters or invalid
  padding; the definitions from \<open>alphabet\<close> to \<open>atob\<close> are the encoder of RFC 4648
  section 4 and the forgiving decoder that browsers implement. A JavaScript binary
  string is a string whose code units are all below 256; \<open>char\<close> is exactly such a code
  unit.
\<close>

text \<open>Modelled from the spec: the standard alphabet, missing with \<^verbatim>\<open>btoa\<close>.\<close>

definition alphabet :: string where
  "alphabet = ''ABCDEFGHIJKLMNOPQRSTUVWXYZabcdefghijklmnopqrstuvwxyz0123456789+/''"

text \<open>Modelled from the spec: the character of a six-bit value, missing with \<^verbatim>\<open>btoa\<close>.\<close>

definition sextet_char :: "nat \<Rightarrow> char" where
  "sextet_char n = alphabet ! (n mod 64)"

text \<open>Modelled from the spec: the position of a character, missing with \<^verbatim>\<open>atob\<close>.\<close>

fun index_of :: "char \<Rightarrow> string \<Rightarrow> nat option" where
  "index_of c [] = None"
| "index_of c (d # ds) =
     (if c = d then Some 0 else map_option Suc (index_of c ds))"

text \<open>
  Modelled from the spec: the six-bit value of a character of the alphabet, missing with
  \<^verbatim>\<open>atob\<close>.
\<close>

definition char_sextet :: "char \<Rightarrow> nat option" where
  "char_sextet c = index_of c alphabet"

text \<open>
  Modelled from the spec: the encoder of \<^verbatim>\<open>btoa\<close> without its padding, on the code
  units of the binary string; four characters for three bytes.
\<close>

fun encode_groups :: "nat list \<Rightarrow> string" where
  "encode_groups (a # b # c # rest) =
     sextet_char (a div 4) # sextet_char ((a mod 4) * 16 + b div 16)
       # sextet_char ((b mod 16) * 4 + c div 64) # sextet_char (c mod 64)
       # encode_groups rest"
| "encode_groups [a, b] =
     [sextet_char (a div 4), sextet_char ((a mod 4) * 16 + b div 16),
      sextet_char ((b mod 16) * 4)]"
| "encode_groups [a] = [sextet_char (a div 4), sextet_char ((a mod 4) * 16)]"
| "encode_groups [] = []"

text \<open>
  Modelled from the spec: \<^verbatim>\<open>btoa\<close>, a function of the browser; the groups, padded
  with \<^verbatim>\<open>=\<close> to a multiple of four characters.
\<close>

definition btoa :: "string \<Rightarrow> string" where
  "btoa binary =
     (let n = length binary
      in encode_groups (map of_char binary) @ replicate ((3 - n mod 3) mod 3) (CHR ''=''))"

text \<open>
  Modelled from the spec: the ASCII whitespace that \<^verbatim>\<open>atob\<close> drops (tab, line feed,
  form feed, carriage return, space).
\<close>

definition ascii_whitespace :: "char \<Rightarrow> bool" where
  "ascii_whitespace c \<longleftrightarrow> (of_char c :: nat) \<in> {9, 10, 12, 13, 32}"

text \<open>
  Modelled from the spec: the padding rule of \<^verbatim>\<open>atob\<close>; if the length is a multiple
  of four, one or two trailing \<^verbatim>\<open>=\<close> are removed.
\<close>

definition strip_padding :: "string \<Rightarrow> string" where
  "strip_padding s =
     (if length s mod 4 = 0 then
        (case rev s of
           c1 # c2 # r \<Rightarrow>
             if c1 = CHR ''='' \<and> c2 = CHR ''='' then rev r
             else if c1 = CHR ''='' then rev (c2 # r)
             else s
         | _ \<Rightarrow> s)
      else s)"

text \<open>
  Modelled from the spec: the decoder of \<^verbatim>\<open>atob\<close> on six-bit values; three bytes for
  four characters; of a last group of two characters the low four bits are dropped, of
  a last group of three the low two.
\<close>

fun decode_groups :: "nat list \<Rightarrow> nat list" where
  "decode_groups (s0 # s1 # s2 # s3 # rest) =
     (s0 * 4 + s1 div 16) # ((s1 mod 16) * 16 + s2 div 4) # ((s2 mod 4) * 64 + s3)
       # decode_groups rest"
| "decode_groups [s0, s1, s2] = [s0 * 4 + s1 div 16, (s1 mod 16) * 16 + s2 div 4]"
| "decode_groups [s0, s1] = [s0 * 4 + s1 div 16]"
| "decode_groups [s0] = []"
| "decode_groups [] = []"

text \<open>
  Modelled from the spec: the six-bit values of a string of \<^verbatim>\<open>atob\<close>, none if a
  character is not of the alphabet.
\<close>

fun sextets :: "string \<Rightarrow> nat list option" where
  "sextets [] = Some []"
| "sextets (c # cs) =
     (case char_sextet c of
        None \<Rightarrow> None
      | Some n \<Rightarrow> map_option (Cons n) (sextets cs))"

text \<open>
  Modelled from the spec: \<^verbatim>\<open>atob\<close>, a function of the browser. It fails when, after
  the whitespace and the padding are removed, the length is one more than a multiple of
  four or a character is not of the alphabet.
\<close>

definition atob :: "string \<Rightarrow> error + string" where
  "atob s =
     (let d = strip_padding (filter (\<lambda>c. \<not> ascii_whitespace c) s)
      in if length d mod 4 = 1 then Inl InvalidCharacterError
         else (case sextets d of
                 None \<Rightarrow> Inl InvalidCharacterError
               | Some ns \<Rightarrow> Inr (map char_of (decode_groups ns))))"

text \<open>
  \<^verbatim>\<open>encode(bytes)\<close>: \<^verbatim>\<open>String.fromCharCode\<close> of every byte, then \<^verbatim>\<open>btoa\<close>.
\<close>

definition encode :: "uint8 list \<Rightarrow> string" where
  "encode bytes = btoa (map (\<lambda>b. char_of (unat b)) bytes)"

text \<open>
  \<^verbatim>\<open>decode(base64)\<close>: \<^verbatim>\<open>atob\<close>, which may throw, then \<^verbatim>\<open>charCodeAt\<close> of every
  code unit into a \<^verbatim>\<open>Uint8Array\<close>.
\<close>

definition decode :: "string \<Rightarrow> error + uint8 list" where
  "decode base64 =
     (case atob base64 of
        Inl e \<Rightarrow> Inl e
      | Inr binaryString \<Rightarrow> Inr (map (\<lambda>c. word_of_nat (of_char c)) binaryString))"

record GenAIBlob =
  data :: string
  mimeType :: string

definition createBlob :: "number list \<Rightarrow> GenAIBlob" where
  "createBlob samples =
     \<lparr> data = encode (Uint8Array_of_Int16Array (floatToPcm16 samples)),
       mimeType = ''audio/pcm;rate=16000'' \<rparr>"

section \<open>Live session\<close>

subsection \<open>Data\<close>

record Agent =
  agent_id :: string
  name :: string
  persona :: string
  knowledgeBase :: string
  greeting :: string
  callFlow :: string
  phoneNumber :: string

text \<open>An entry of the live transcript, and the turn in progress.\<close>

record Turn =
  userInput :: string
  agentResponse :: string

text \<open>
  The part of a \<^verbatim>\<open>LiveServerMessage\<close> that \<^verbatim>\<open>onmessage\<close> reads. Every field is
  optional in the protocol. \<open>text_of\<close> is the field \<^verbatim>\<open>text\<close> of a transcription;
  \<open>inlineData_data\<close> is \<^verbatim>\<open>inlineData?.data\<close> of a part.
\<close>

record Transcription =
  text_of :: "string option"

record Part =
  inlineData_data :: "string option"

record Content =
  parts :: "Part list option"

record ServerContent =
  outputTranscription :: "Transcription option"
  inputTranscription :: "Transcription option"
  turnComplete :: bool
  modelTurn :: "Content option"

record LiveServerMessage =
  serverContent :: "ServerContent option"

text \<open>
  The objects the handlers create and hold through refs. Each kind lives in a list of
  the state; an object is named by its position, and creating one appends to the list.
\<close>

record Connection =
  captured :: Turn
  systemInstruction :: string
  resolved :: bool
  closeRequested :: bool
  sessionClosed :: bool

record AudioContext =
  contextRate :: real
  contextClosed :: bool

record BufferSource =
  startTime :: real
  buffer :: AudioBuffer

text \<open>
  The state of the component: its React state, its refs, the two inputs of
  \<^verbatim>\<open>handleStartLiveSession\<close> that come from outside (\<open>agents\<close> and
  \<^verbatim>\<open>process.env.API_KEY\<close>), and the objects. \<open>captured\<close> of a connection is the
  value that the constant \<^verbatim>\<open>currentLiveTranscription\<close> had in the render whose
  \<^verbatim>\<open>handleStartLiveSession\<close> built the callbacks: the callbacks are closures of that
  render and keep reading that value. \<open>pendingGetUserMedia\<close> counts the \<^verbatim>\<open>onopen\<close>
  handlers suspended at \<^verbatim>\<open>await getUserMedia\<close>.
\<close>

record App =
  agents :: "Agent list"
  API_KEY :: "string option"
  isLiveSessionActive :: bool
  liveStatus :: string
  liveTranscript :: "Turn list"
  currentLiveTranscription :: Turn
  sessionPromiseRef :: "nat option"
  microphoneStreamRef :: "nat option"
  inputAudioContextRef :: "nat option"
  outputAudioContextRef :: "nat option"
  scriptProcessorRef :: "nat option"
  nextStartTimeRef :: real
  audioSourcesRef :: "nat list"
  connections :: "Connection list"
  mediaStreams :: "bool list"
  audioContexts :: "AudioContext list"
  scriptProcessors :: "bool list"
  bufferSources :: "BufferSource list"
  pendingGetUserMedia :: nat
  alerts :: "string list"

definition emptyTurn :: Turn where
  "emptyTurn = \<lparr> userInput = '''', agentResponse = '''' \<rparr>"

text \<open>The component as first mounted.\<close>

definition initialApp :: "Agent list \<Rightarrow> string option \<Rightarrow> App" where
  "initialApp as key =
     \<lparr> agents = as, API_KEY = key,
       isLiveSessionActive = False, liveStatus = ''Disconnected'',
       liveTranscript = [], currentLiveTranscription = emptyTurn,
       sessionPromiseRef = None, microphoneStreamRef = None,
       inputAudioContextRef = None, outputAudioContextRef = None,
       scriptProcessorRef = None, nextStartTimeRef = 0, audioSourcesRef = [],
       connections = [], mediaStreams = [], audioContexts = [], scriptProcessors = [],
       bufferSources = [], pendingGetUserMedia = 0, alerts = [] \<rparr>"

definition modify_at :: "nat \<Rightarrow> ('a \<Rightarrow> 'a) \<Rightarrow> 'a list \<Rightarrow> 'a list" where
  "modify_at i f xs = (if i < length xs then xs[i := f (xs ! i)] else xs)"

subsection \<open>handleStopLiveSession\<close>

text \<open>
  \<^verbatim>\<open>sessionPromiseRef.current?.then(session => session.close())\<close>: on a resolved
  promise the session is closed as soon as the handler returns; on a pending one the
  callback waits for the promise.
\<close>

definition then_close :: "Connection \<Rightarrow> Connection" where
  "then_close c = (if resolved c then c\<lparr>sessionClosed := True\<rparr> else c\<lparr>closeRequested := True\<rparr>)"

text \<open>
  \<^verbatim>\<open>close()\<close> of a context that is already closed changes nothing (it returns a
  rejected promise that nobody awaits). The context refs are not reset, and
  \<^verbatim>\<open>audioSourcesRef\<close> is not touched.
\<close>

definition close_context :: "nat option \<Rightarrow> AudioContext list \<Rightarrow> AudioContext list" where
  "close_context r cs =
     (case r of None \<Rightarrow> cs | Some i \<Rightarrow> modify_at i (\<lambda>c. c\<lparr>contextClosed := True\<rparr>) cs)"

definition handleStopLiveSession :: "App \<Rightarrow> App" where
  "handleStopLiveSession s =
     (let s1 = (case sessionPromiseRef s of
                  None \<Rightarrow> s
                | Some p \<Rightarrow> s\<lparr>connections := modify_at p then_close (connections s)\<rparr>);
          s2 = s1\<lparr>sessionPromiseRef := None\<rparr>;
          s3 = (case microphoneStreamRef s2 of
                  None \<Rightarrow> s2
                | Some m \<Rightarrow> s2\<lparr>mediaStreams := modify_at m (\<lambda>_. False) (mediaStreams s2)\<rparr>);
          s4 = s3\<lparr>microphoneStreamRef := None\<rparr>;
          s5 = (case scriptProcessorRef s4 of
                  None \<Rightarrow> s4
                | Some n \<Rightarrow> s4\<lparr>scriptProcessors := modify_at n (\<lambda>_. False) (scriptProcessors s4)\<rparr>);
          s6 = s5\<lparr>scriptProcessorRef := None\<rparr>;
          s7 = s6\<lparr>audioContexts := close_context (inputAudioContextRef s6) (audioContexts s6)\<rparr>;
          s8 = s7\<lparr>audioContexts := close_context (outputAudioContextRef s7) (audioContexts s7)\<rparr>
      in s8\<lparr>isLiveSessionActive := False, liveStatus := ''Disconnected''\<rparr>)"

subsection \<open>handleStartLiveSession\<close>

text \<open>\<^verbatim>\<open>process.env.API_KEY\<close> is truthy when it is defined and not empty.\<close>

definition truthy :: "string option \<Rightarrow> bool" where
  "truthy v = (case v of None \<Rightarrow> False | Some x \<Rightarrow> x \<noteq> [])"

definition handleStartLiveSession :: "string \<Rightarrow> App \<Rightarrow> App" where
  "handleStartLiveSession agentId s =
     (case find (\<lambda>a. agent_id a = agentId) (agents s) of
        None \<Rightarrow> s\<lparr>alerts := alerts s @ [''Agent not found or API key is missing.'']\<rparr>
      | Some agent \<Rightarrow>
          if \<not> truthy (API_KEY s)
          then s\<lparr>alerts := alerts s @ [''Agent not found or API key is missing.'']\<rparr>
          else
            s\<lparr> isLiveSessionActive := True,
               liveStatus := ''Connecting...'',
               liveTranscript := [],
               currentLiveTranscription := emptyTurn,
               outputAudioContextRef := Some (length (audioContexts s)),
               audioContexts := audioContexts s @ [\<lparr> contextRate = 24000, contextClosed = False \<rparr>],
               nextStartTimeRef := 0,
               audioSourcesRef := [],
               sessionPromiseRef := Some (length (connections s)),
               connections := connections s @
                 [\<lparr> captured = currentLiveTranscription s,
                    systemInstruction =
                      persona agent @ [CHR 0x0A, CHR 0x0A] @ ''KNOWLEDGE BASE:'' @ [CHR 0x0A]
                        @ knowledgeBase agent,
                    resolved = False, closeRequested = False, sessionClosed = False \<rparr>] \<rparr>)"

subsection \<open>The callbacks\<close>

text \<open>
  \<^verbatim>\<open>onopen\<close> up to its \<^verbatim>\<open>await\<close>: the status, a new input context, and a request
  for the microphone.
\<close>

definition onopen :: "App \<Rightarrow> App" where
  "onopen s =
     s\<lparr> liveStatus := ''Connected'',
        inputAudioContextRef := Some (length (audioContexts s)),
        audioContexts := audioContexts s @ [\<lparr> contextRate = 16000, contextClosed = False \<rparr>],
        pendingGetUserMedia := Suc (pendingGetUserMedia s) \<rparr>"

text \<open>
  \<^verbatim>\<open>onopen\<close> from its \<^verbatim>\<open>await\<close> on, when the microphone is granted: the new stream
  goes into \<^verbatim>\<open>microphoneStreamRef\<close>; then the source node and the script processor are
  created on the input context and connected. \<open>nodes\<close> tells whether the browser creates
  the nodes: on a context that has been closed in the meantime it may refuse, and the
  handler then ends with the stream already in the ref.
\<close>

definition onopen_resume :: "bool \<Rightarrow> App \<Rightarrow> App" where
  "onopen_resume nodes s =
     (if pendingGetUserMedia s = 0 then s
      else
        let s1 = s\<lparr> pendingGetUserMedia := pendingGetUserMedia s - 1,
                    microphoneStreamRef := Some (length (mediaStreams s)),
                    mediaStreams := mediaStreams s @ [True] \<rparr>
        in if nodes
           then s1\<lparr> scriptProcessorRef := Some (length (scriptProcessors s1)),
                    scriptProcessors := scriptProcessors s1 @ [True] \<rparr>
           else s1)"

text \<open>\<^verbatim>\<open>prev.agentResponse + text\<close>: an undefined \<^verbatim>\<open>text\<close> is appended as a word.\<close>

definition plus_text :: "string \<Rightarrow> Transcription \<Rightarrow> string" where
  "plus_text prev t = prev @ (case text_of t of None \<Rightarrow> ''undefined'' | Some x \<Rightarrow> x)"

text \<open>
  \<^verbatim>\<open>message.serverContent?.modelTurn?.parts[0]?.inlineData?.data\<close>: \<^verbatim>\<open>parts[0]\<close>
  is not guarded, so a model turn without parts raises a TypeError. The handler goes on
  with the audio when the result is a string that is not empty and there is an output
  context.
\<close>

definition base64Audio :: "LiveServerMessage \<Rightarrow> error + string option" where
  "base64Audio message =
     (case serverContent message of
        None \<Rightarrow> Inr None
      | Some sc \<Rightarrow>
          (case modelTurn sc of
             None \<Rightarrow> Inr None
           | Some mt \<Rightarrow>
               (case parts mt of
                  None \<Rightarrow> Inl TypeError
                | Some [] \<Rightarrow> Inr None
                | Some (p # _) \<Rightarrow> Inr (inlineData_data p))))"

text \<open>
  \<^verbatim>\<open>onmessage\<close> is three statements in a row. The first is the \<^verbatim>\<open>if\<close> /
  \<^verbatim>\<open>else if\<close> on the two transcriptions; both updates are functional, on the latest
  state.
\<close>

definition onmessage_transcription :: "LiveServerMessage \<Rightarrow> App \<Rightarrow> App" where
  "onmessage_transcription message s =
     (let sc = serverContent message;
          prev = currentLiveTranscription s
      in case Option.bind sc outputTranscription of
           Some t \<Rightarrow>
             s\<lparr>currentLiveTranscription := prev\<lparr>agentResponse := plus_text (agentResponse prev) t\<rparr>\<rparr>
         | None \<Rightarrow>
             (case Option.bind sc inputTranscription of
                Some t \<Rightarrow>
                  s\<lparr>currentLiveTranscription := prev\<lparr>userInput := plus_text (userInput prev) t\<rparr>\<rparr>
              | None \<Rightarrow> s))"

text \<open>
  The second: on \<^verbatim>\<open>turnComplete\<close> the transcript receives
  \<^verbatim>\<open>currentLiveTranscription\<close> as the callback sees it, which is the value \<open>cap\<close> of
  the render that built the callback, and the turn in progress is reset.
\<close>

definition onmessage_turnComplete :: "Turn \<Rightarrow> LiveServerMessage \<Rightarrow> App \<Rightarrow> App" where
  "onmessage_turnComplete cap message s =
     (if (case serverContent message of None \<Rightarrow> False | Some c \<Rightarrow> turnComplete c)
      then s\<lparr> liveTranscript := liveTranscript s @ [cap],
              currentLiveTranscription := emptyTurn \<rparr>
      else s)"

text \<open>
  The third schedules the audio; \<open>currentTime\<close> is the clock of the output context.
  An exception ends the handler and keeps what it had written. The \<^verbatim>\<open>await\<close> is on
  a function that never suspends, so the handler resumes before the next message is
  delivered, and one call of the handler is one step.
\<close>

definition onmessage_audio :: "real \<Rightarrow> LiveServerMessage \<Rightarrow> App \<Rightarrow> App" where
  "onmessage_audio currentTime message s =
     (case base64Audio message of
        Inl e \<Rightarrow> s
      | Inr None \<Rightarrow> s
      | Inr (Some b64) \<Rightarrow>
          if b64 \<noteq> [] \<and> outputAudioContextRef s \<noteq> None then
            let s1 = s\<lparr>nextStartTimeRef := max (nextStartTimeRef s) currentTime\<rparr>
            in case decode b64 of
                 Inl e \<Rightarrow> s1
               | Inr bytes \<Rightarrow>
                   (case decodeAudioData bytes 24000 1 of
                      Inl e \<Rightarrow> s1
                    | Inr audioBuffer \<Rightarrow>
                        s1\<lparr> bufferSources := bufferSources s1 @
                              [\<lparr> startTime = nextStartTimeRef s1, buffer = audioBuffer \<rparr>],
                            nextStartTimeRef := nextStartTimeRef s1 + duration audioBuffer,
                            audioSourcesRef := audioSourcesRef s1 @ [length (bufferSources s1)] \<rparr>)
          else s)"

definition onmessage :: "Turn \<Rightarrow> real \<Rightarrow> LiveServerMessage \<Rightarrow> App \<Rightarrow> App" where
  "onmessage cap currentTime message s =
     onmessage_audio currentTime message
       (onmessage_turnComplete cap message (onmessage_transcription message s))"

definition onerror :: "string \<Rightarrow> App \<Rightarrow> App" where
  "onerror message s = handleStopLiveSession (s\<lparr>liveStatus := ''Error: '' @ message\<rparr>)"

definition onclose :: "App \<Rightarrow> App" where
  "onclose s = handleStopLiveSession (s\<lparr>liveStatus := ''Disconnected''\<rparr>)"

text \<open>The promise of a connection resolves: the callbacks waiting on it run.\<close>

definition connect_resolved :: "Connection \<Rightarrow> Connection" where
  "connect_resolved c = c\<lparr>resolved := True, sessionClosed := sessionClosed c \<or> closeRequested c\<rparr>"

subsection \<open>Executions\<close>

text \<open>
  Everything runs on one event loop, so an execution is a sequence of handler calls.
  The user calls start and stop; the transport calls the callbacks of a connection and
  resolves its promise; the browser grants or denies the microphone (a denial only ends
  the suspended \<^verbatim>\<open>onopen\<close>) and ends a source. The
  \<^verbatim>\<open>onaudioprocess\<close> callback of the script processor, which encodes a frame with
  \<^verbatim>\<open>createBlob\<close> and sends it, writes none of the state and is left out.
\<close>

datatype event =
    StartLiveSession string
  | StopLiveSession
  | Open nat
  | MicrophoneGranted bool
  | MicrophoneDenied
  | ConnectResolved nat
  | Message nat real LiveServerMessage
  | Error nat string
  | Close nat
  | SourceEnded nat

fun step :: "App \<Rightarrow> event \<Rightarrow> App" where
  "step s (StartLiveSession agentId) = handleStartLiveSession agentId s"
| "step s StopLiveSession = handleStopLiveSession s"
| "step s (Open c) = (if c < length (connections s) then onopen s else s)"
| "step s (MicrophoneGranted nodes) = onopen_resume nodes s"
| "step s MicrophoneDenied = s\<lparr>pendingGetUserMedia := pendingGetUserMedia s - 1\<rparr>"
| "step s (ConnectResolved c) = s\<lparr>connections := modify_at c connect_resolved (connections s)\<rparr>"
| "step s (Message c currentTime message) =
     (if c < length (connections s)
      then onmessage (captured (connections s ! c)) currentTime message s else s)"
| "step s (Error c message) = (if c < length (connections s) then onerror message s else s)"
| "step s (Close c) = (if c < length (connections s) then onclose s else s)"
| "step s (SourceEnded n) = s\<lparr>audioSourcesRef := removeAll n (audioSourcesRef s)\<rparr>"

definition run :: "App \<Rightarrow> event list \<Rightarrow> App" where
  "run s es = foldl step s es"

subsection \<open>Playback schedule\<close>

text \<open>Messages of one connection, each with the clock of the output context at its arrival.\<close>

definition receive :: "Turn \<Rightarrow> App \<Rightarrow> (real \<times> LiveServerMessage) list \<Rightarrow> App" where
  "receive cap s ms = foldl (\<lambda>s' (currentTime, message). onmessage cap currentTime message s') s ms"

text \<open>The audio buffer that \<^verbatim>\<open>onmessage\<close> decodes from a message, if it carries one.\<close>

definition audio_of :: "LiveServerMessage \<Rightarrow> AudioBuffer option" where
  "audio_of message =
     (case base64Audio message of
        Inl e \<Rightarrow> None
      | Inr None \<Rightarrow> None
      | Inr (Some b64) \<Rightarrow>
          if b64 \<noteq> [] then
            (case decode b64 of
               Inl e \<Rightarrow> None
             | Inr bytes \<Rightarrow>
                 (case decodeAudioData bytes 24000 1 of Inl e \<Rightarrow> None | Inr b \<Rightarrow> Some b))
          else None)"

text \<open>
  The scheduler in the words of the specification: \<open>startAt = max(nextStartTime,
  currentClockTime)\<close>, the buffer is scheduled at \<open>startAt\<close>, and \<open>nextStartTime =
  startAt + buffer.duration\<close>.
\<close>

fun spec_enqueue :: "real \<Rightarrow> (real \<times> AudioBuffer) list \<Rightarrow> BufferSource list" where
  "spec_enqueue nextStartTime [] = []"
| "spec_enqueue nextStartTime ((currentClockTime, b) # rest) =
     (let startAt = max nextStartTime currentClockTime
      in \<lparr> startTime = startAt, buffer = b \<rparr> # spec_enqueue (startAt + duration b) rest)"

fun spec_nextStartTime :: "real \<Rightarrow> (real \<times> AudioBuffer) list \<Rightarrow> real" where
  "spec_nextStartTime nextStartTime [] = nextStartTime"
| "spec_nextStartTime nextStartTime ((currentClockTime, b) # rest) =
     spec_nextStartTime (max nextStartTime currentClockTime + duration b) rest"

text \<open>Start times \<open>t, t + d1, t + d1 + d2, ...\<close>\<close>

fun back_to_back :: "real \<Rightarrow> real list \<Rightarrow> real list" where
  "back_to_back t [] = []"
| "back_to_back t (d # ds) = t # back_to_back (t + d) ds"

text \<open>
  No idle gap: every chunk arrives no later than the end of the audio scheduled before
  it.
\<close>

fun no_idle_gap :: "real \<Rightarrow> (real \<times> AudioBuffer) list \<Rightarrow> bool" where
  "no_idle_gap nextStartTime [] = True"
| "no_idle_gap nextStartTime ((currentClockTime, b) # rest) =
     (currentClockTime \<le> nextStartTime \<and> no_idle_gap (nextStartTime + duration b) rest)"

text \<open>No overlap: a source starts no earlier than the one before it ends.\<close>

fun no_overlap :: "BufferSource list \<Rightarrow> bool" where
  "no_overlap (x # y # rest) =
     (startTime x + duration (buffer x) \<le> startTime y \<and> no_overlap (y # rest))"
| "no_overlap _ = True"

section \<open>Properties of the codec\<close>

subsection \<open>Samples\<close>

lemma sint_wrap: "sint (word_of_int k :: int16) = (k + 32768) mod 65536 - 32768"
  by (simp add: sint_sbintrunc' signed_take_bit_eq_take_bit_shift take_bit_eq_mod)

lemma sint_in_range: "- 32768 \<le> k \<Longrightarrow> k < 32768 \<Longrightarrow> sint (word_of_int k :: int16) = k"
  using sint_wrap[of k] by simp

lemma trunc_bounds: "\<bar>real_of_int (trunc x) - x\<bar> < 1"
  unfolding trunc_def by (auto; linarith)

lemma trunc_range:
  "- 1 \<le> r \<Longrightarrow> r < 1 \<Longrightarrow> - 32768 \<le> trunc (r * 32768) \<and> trunc (r * 32768) < 32768"
  unfolding trunc_def by (auto; linarith)

lemma sample_roundtrip:
  assumes "- 1 \<le> r" "r < 1"
  shows "\<bar>r - real_of_int (sint (floatToPcm16_sample (Finite r))) / 32768\<bar> < 1 / 32768"
proof -
  let ?k = "trunc (r * 32768)"
  have "sint (floatToPcm16_sample (Finite r)) = ?k"
    using trunc_range[OF assms] by (simp add: floatToPcm16_sample_def sint_in_range)
  moreover have "\<bar>real_of_int ?k - r * 32768\<bar> < 1" by (rule trunc_bounds)
  ultimately show ?thesis by (simp add: field_simps)
qed

lemma non_finite_samples:
  "floatToPcm16_sample NaN = 0" "floatToPcm16_sample PosInfinity = 0"
  "floatToPcm16_sample NegInfinity = 0"
  by (simp_all add: floatToPcm16_sample_def)

lemma trunc_floor: "trunc p = (if 0 \<le> p then \<lfloor>p\<rfloor> else - \<lfloor>- p\<rfloor>)"
  by (simp add: trunc_def ceiling_def)

lemma sample_stored:
  "sint (floatToPcm16_sample (Finite x)) =
     ((if 0 \<le> x then \<lfloor>x * 32768\<rfloor> else - \<lfloor>- (x * 32768)\<rfloor>) + 32768) mod 65536 - 32768"
proof -
  have "(0 \<le> x * 32768) = (0 \<le> x)" by simp
  then show ?thesis
    by (simp only: floatToPcm16_sample_def times_32768.simps ToInt16.simps sint_wrap trunc_floor)
qed

lemma sample_stored_in_range:
  assumes "- 1 \<le> x" "x < 1"
  shows "sint (floatToPcm16_sample (Finite x)) =
           (if 0 \<le> x then \<lfloor>x * 32768\<rfloor> else - \<lfloor>- (x * 32768)\<rfloor>)"
proof -
  have "(0 \<le> x * 32768) = (0 \<le> x)" by simp
  then have "trunc (x * 32768) = (if 0 \<le> x then \<lfloor>x * 32768\<rfloor> else - \<lfloor>- (x * 32768)\<rfloor>)"
    by (simp only: trunc_floor)
  moreover have "sint (floatToPcm16_sample (Finite x)) = trunc (x * 32768)"
    using trunc_range[OF assms] by (simp add: floatToPcm16_sample_def sint_in_range)
  ultimately show ?thesis by simp
qed


text \<open>
  C6. For every array of samples the encoder stores, at every index, a finite sample's
  product with 32768 rounded towards zero (down when the sample is positive, up when it
  is negative) and reduced modulo \<open>2 ^ 16\<close> into the signed 16-bit range. Nothing is
  clamped; a sample in \<open>[-1, 1)\<close> is stored as its rounded product. A NaN or an
  infinity, which has no product to round, is stored as 0 and not as a bound of the
  range.
\<close>

theorem floatToPcm16_truncates_and_wraps:
  "length (floatToPcm16 samples) = length samples
   \<and> (\<forall>i < length samples.
        sint (floatToPcm16 samples ! i) =
          (case samples ! i of
             Finite x \<Rightarrow>
               ((if 0 \<le> x then \<lfloor>x * 32768\<rfloor> else - \<lfloor>- (x * 32768)\<rfloor>) + 32768) mod 65536 - 32768
           | NaN \<Rightarrow> 0
           | PosInfinity \<Rightarrow> 0
           | NegInfinity \<Rightarrow> 0))
   \<and> (\<forall>i < length samples. \<forall>x.
        samples ! i = Finite x \<and> - 1 \<le> x \<and> x < 1 \<longrightarrow>
          sint (floatToPcm16 samples ! i) =
            (if 0 \<le> x then \<lfloor>x * 32768\<rfloor> else - \<lfloor>- (x * 32768)\<rfloor>))"
proof -
  have "sint (floatToPcm16_sample y) =
          (case y of
             Finite x \<Rightarrow>
               ((if 0 \<le> x then \<lfloor>x * 32768\<rfloor> else - \<lfloor>- (x * 32768)\<rfloor>) + 32768) mod 65536 - 32768
           | NaN \<Rightarrow> 0
           | PosInfinity \<Rightarrow> 0
           | NegInfinity \<Rightarrow> 0)" for y
    by (cases y) (simp_all only: sample_stored non_finite_samples number.case sint_0)
  then have 2: "\<forall>i < length samples.
        sint (floatToPcm16 samples ! i) =
          (case samples ! i of
             Finite x \<Rightarrow>
               ((if 0 \<le> x then \<lfloor>x * 32768\<rfloor> else - \<lfloor>- (x * 32768)\<rfloor>) + 32768) mod 65536 - 32768
           | NaN \<Rightarrow> 0
           | PosInfinity \<Rightarrow> 0
           | NegInfinity \<Rightarrow> 0)"
    by (simp only: floatToPcm16_def nth_map) simp
  have 3: "\<forall>i < length samples. \<forall>x.
        samples ! i = Finite x \<and> - 1 \<le> x \<and> x < 1 \<longrightarrow>
          sint (floatToPcm16 samples ! i) =
            (if 0 \<le> x then \<lfloor>x * 32768\<rfloor> else - \<lfloor>- (x * 32768)\<rfloor>)"
  proof (intro allI impI)
    fix i x
    assume i: "i < length samples" and x: "samples ! i = Finite x \<and> - 1 \<le> x \<and> x < 1"
    have "floatToPcm16 samples ! i = floatToPcm16_sample (Finite x)"
      using i x by (simp add: floatToPcm16_def)
    then show "sint (floatToPcm16 samples ! i) =
            (if 0 \<le> x then \<lfloor>x * 32768\<rfloor> else - \<lfloor>- (x * 32768)\<rfloor>)"
      using sample_stored_in_range[of x] x by (simp only:)
  qed
  have 1: "length (floatToPcm16 samples) = length samples"
    by (simp add: floatToPcm16_def)
  from 1 2 3 show ?thesis by (intro conjI)
qed

theorem floatToPcm16_truncates_and_wraps_witness:
  "map sint (floatToPcm16
      [Finite (- 1 / 100000), Finite (- 3 / 10), Finite (3 / 2), Finite 1, Finite (- 3 / 2),
       NaN, PosInfinity, NegInfinity])
   = [0, - 9830, - 16384, - 32768, 16384, 0, 0, 0]"
proof -
  let ?xs = "[Finite (- 1 / 100000), Finite (- 3 / 10), Finite (3 / 2), Finite 1, Finite (- 3 / 2),
       NaN, PosInfinity, NegInfinity]"
  note t = floatToPcm16_truncates_and_wraps[of ?xs]
  note n = t[THEN conjunct2, THEN conjunct1, rule_format]
  have l: "length (floatToPcm16 ?xs) = 8" using t by simp
  have "sint (floatToPcm16 ?xs ! 0) = 0" using n[of 0] by simp
  moreover have "sint (floatToPcm16 ?xs ! 1) = - 9830" using n[of 1] by simp
  moreover have "sint (floatToPcm16 ?xs ! 2) = - 16384" using n[of 2] by simp
  moreover have "sint (floatToPcm16 ?xs ! 3) = - 32768" using n[of 3] by simp
  moreover have "sint (floatToPcm16 ?xs ! 4) = 16384" using n[of 4] by simp
  moreover have "sint (floatToPcm16 ?xs ! 5) = 0" using n[of 5] by simp
  moreover have "sint (floatToPcm16 ?xs ! 6) = 0" using n[of 6] by simp
  moreover have "sint (floatToPcm16 ?xs ! 7) = 0" using n[of 7] by simp
  ultimately show ?thesis
    using l by (intro nth_equalityI) (auto simp: less_Suc_eq numeral_eq_Suc)
qed

subsection \<open>Bytes\<close>

lemma bytes_join:
  "(ucast (ucast (w :: int16) :: uint8) OR push_bit 8 (ucast (ucast (drop_bit 8 w) :: uint8))) = w"
  by (rule bit_word_eqI) (auto simp: bit_simps)

lemma Int16Array_of_Uint8Array: "Int16Array_of_buffer (Uint8Array_of_Int16Array ws) = Inr ws"
  by (induction ws) (simp_all add: bytes_join)

lemma decodeAudioData_mono:
  assumes "ws \<noteq> []"
  shows "decodeAudioData (Uint8Array_of_Int16Array ws) rate 1 =
     Inr \<lparr> sampleRate = rate, channels = [map (\<lambda>w. real_of_int (sint w) / 32768) ws] \<rparr>"
proof -
  have "map (\<lambda>i. real_of_int (sint (ws ! i)) / 32768) [0 ..< length ws]
        = map (\<lambda>w. real_of_int (sint w) / 32768) ws"
    by (rule nth_equalityI) simp_all
  then show ?thesis
    using assms by (simp add: decodeAudioData_def Int16Array_of_Uint8Array)
qed

lemma decodeAudioData_empty: "decodeAudioData [] rate numChannels = Inl NotSupportedError"
  by (simp add: decodeAudioData_def)

text \<open>
  C4, as stated, fails at the sample 1.0, which is in the declared range: its product
  32768 wraps to -32768 and is decoded as -1.0.
\<close>

theorem codec_roundtrip_full_scale_counterexample:
  "decodeAudioData (Uint8Array_of_Int16Array (floatToPcm16 [Finite 1])) 24000 1
     = Inr \<lparr> sampleRate = 24000, channels = [[- 1]] \<rparr>
   \<and> \<not> \<bar>1 - (- 1)\<bar> \<le> (1 / 32768 :: real)"
proof -
  have "trunc (1 * 32768) = 32768" by (simp add: trunc_def)
  then have "sint (floatToPcm16_sample (Finite 1)) = - 32768"
    by (simp add: floatToPcm16_sample_def sint_wrap)
  then have "real_of_int (sint (floatToPcm16_sample (Finite 1))) = - 32768"
    by (simp only: of_int_minus of_int_numeral)
  moreover have "floatToPcm16 [Finite 1] \<noteq> []"
    by (simp add: floatToPcm16_def)
  ultimately show ?thesis
    unfolding decodeAudioData_mono[OF \<open>floatToPcm16 [Finite 1] \<noteq> []\<close>]
    by (simp add: floatToPcm16_def)
qed

text \<open>
  C4, amended. For every array of samples in \<open>[-1.0, 1.0)\<close> that is not empty,
  decoding the encoded PCM16 bytes as one channel gives an array of the same length
  whose every value is within \<open>1 / 32768\<close> of the sample. (Of an empty array there is
  nothing to decode: \<open>decodeAudioData_empty\<close>.)
\<close>

theorem codec_roundtrip_below_full_scale:
  assumes "rs \<noteq> []" and "\<forall>r \<in> set rs. - 1 \<le> r \<and> r < 1"
  shows "\<exists>ys. decodeAudioData (Uint8Array_of_Int16Array (floatToPcm16 (map Finite rs))) rate 1
                = Inr \<lparr> sampleRate = rate, channels = [ys] \<rparr>
              \<and> length ys = length rs
              \<and> (\<forall>i < length rs. \<bar>rs ! i - ys ! i\<bar> \<le> 1 / 32768)"
proof -
  let ?ys = "map (\<lambda>w. real_of_int (sint w) / 32768) (floatToPcm16 (map Finite rs))"
  have "\<bar>rs ! i - ?ys ! i\<bar> \<le> 1 / 32768" if "i < length rs" for i
  proof -
    from that assms(2) have "- 1 \<le> rs ! i" "rs ! i < 1" by auto
    from sample_roundtrip[OF this] that show ?thesis
      by (simp add: floatToPcm16_def)
  qed
  moreover have ne: "floatToPcm16 (map Finite rs) \<noteq> []"
    using assms(1) by (simp add: floatToPcm16_def)
  ultimately show ?thesis
    unfolding decodeAudioData_mono[OF ne] by (intro exI[of _ ?ys]) (simp add: floatToPcm16_def)
qed

theorem codec_roundtrip_below_full_scale_witness:
  "\<exists>ys. decodeAudioData
          (Uint8Array_of_Int16Array (floatToPcm16 (map Finite [- 1, 1 / 3, 32767 / 32768]))) 24000 1
          = Inr \<lparr> sampleRate = 24000, channels = [ys] \<rparr>
        \<and> length ys = 3
        \<and> \<bar>- 1 - ys ! 0\<bar> \<le> 1 / 32768
        \<and> \<bar>1 / 3 - ys ! 1\<bar> \<le> 1 / 32768
        \<and> \<bar>32767 / 32768 - ys ! 2\<bar> \<le> 1 / 32768"
proof -
  let ?rs = "[- 1, 1 / 3, 32767 / 32768 :: real]"
  have h: "?rs \<noteq> []" "\<forall>r \<in> set ?rs. - 1 \<le> r \<and> r < 1" by simp_all
  from codec_roundtrip_below_full_scale[OF h, of 24000]
  obtain ys where ys:
    "decodeAudioData (Uint8Array_of_Int16Array (floatToPcm16 (map Finite ?rs))) 24000 1
       = Inr \<lparr> sampleRate = 24000, channels = [ys] \<rparr>"
    "length ys = length ?rs" "\<forall>i < length ?rs. \<bar>?rs ! i - ys ! i\<bar> \<le> 1 / 32768"
    by blast
  have "\<bar>- 1 - ys ! 0\<bar> \<le> 1 / 32768" "\<bar>1 / 3 - ys ! 1\<bar> \<le> 1 / 32768"
    "\<bar>32767 / 32768 - ys ! 2\<bar> \<le> 1 / 32768"
    using ys(3)[rule_format, of 0] ys(3)[rule_format, of 1] ys(3)[rule_format, of 2]
    by simp_all
  with ys(1,2) show ?thesis
    by (intro exI[of _ ys]) simp
qed

subsection \<open>Base64\<close>

lemma div_mod_pack:
  fixes x y n :: nat
  assumes "y < n"
  shows "(x * n + y) div n = x" "(x * n + y) mod n = y"
  using assms by simp_all

lemma sextet_bounds:
  fixes a b c :: nat
  assumes "a < 256" "b < 256" "c < 256"
  shows "a div 4 < 64" "(a mod 4) * 16 + b div 16 < 64" "(b mod 16) * 4 + c div 64 < 64"
    "c mod 64 < 64" "(a mod 4) * 16 < 64" "(b mod 16) * 4 < 64"
proof -
  have "a mod 4 < 4" "b mod 16 < 16" by simp_all
  moreover have "b div 16 < 16" "c div 64 < 4" "a div 4 < 64"
    using assms by (simp_all add: less_mult_imp_div_less)
  ultimately show "a div 4 < 64" "(a mod 4) * 16 + b div 16 < 64" "(b mod 16) * 4 + c div 64 < 64"
    "c mod 64 < 64" "(a mod 4) * 16 < 64" "(b mod 16) * 4 < 64"
    by simp_all
qed

lemma regroup_full:
  fixes a b c :: nat
  assumes "b < 256" "c < 256"
  shows
    "a div 4 * 4 + ((a mod 4) * 16 + b div 16) div 16 = a"
    "(((a mod 4) * 16 + b div 16) mod 16) * 16 + ((b mod 16) * 4 + c div 64) div 4 = b"
    "(((b mod 16) * 4 + c div 64) mod 4) * 64 + c mod 64 = c"
proof -
  have 1: "b div 16 < 16" "c div 64 < 4"
    using assms by (simp_all add: less_mult_imp_div_less)
  show "a div 4 * 4 + ((a mod 4) * 16 + b div 16) div 16 = a"
    by (simp only: div_mod_pack[OF 1(1)] div_mult_mod_eq)
  show "(((a mod 4) * 16 + b div 16) mod 16) * 16 + ((b mod 16) * 4 + c div 64) div 4 = b"
    by (simp only: div_mod_pack[OF 1(1)] div_mod_pack[OF 1(2)] div_mult_mod_eq)
  show "(((b mod 16) * 4 + c div 64) mod 4) * 64 + c mod 64 = c"
    by (simp only: div_mod_pack[OF 1(2)] div_mult_mod_eq)
qed

lemma regroup_short:
  fixes a b :: nat
  assumes "b < 256"
  shows
    "a div 4 * 4 + ((a mod 4) * 16) div 16 = a"
    "(((a mod 4) * 16 + b div 16) mod 16) * 16 + ((b mod 16) * 4) div 4 = b"
proof -
  have 1: "b div 16 < 16"
    using assms by (simp_all add: less_mult_imp_div_less)
  show "a div 4 * 4 + ((a mod 4) * 16) div 16 = a"
    by simp
  show "(((a mod 4) * 16 + b div 16) mod 16) * 16 + ((b mod 16) * 4) div 4 = b"
    using 1 by simp
qed

lemma decode_quad:
  fixes a b c :: nat
  assumes "b < 256" "c < 256"
  shows "decode_groups (a div 4 # ((a mod 4) * 16 + b div 16) # ((b mod 16) * 4 + c div 64)
                          # (c mod 64) # ns)
         = a # b # c # decode_groups ns"
  by (simp only: decode_groups.simps regroup_full[OF assms])

lemma decode_triple:
  fixes a b :: nat
  assumes "b < 256"
  shows "decode_groups [a div 4, (a mod 4) * 16 + b div 16, (b mod 16) * 4] = [a, b]"
  by (simp only: decode_groups.simps regroup_short[OF assms] regroup_full(1)[OF assms assms])

lemma decode_pair:
  fixes a :: nat
  shows "decode_groups [a div 4, (a mod 4) * 16] = [a]"
  by (simp only: decode_groups.simps regroup_short(1)[of 0])

lemma sextet_table: "list_all (\<lambda>n. char_sextet (sextet_char n) = Some n) [0 ..< 64]"
  by code_simp

lemma char_sextet_sextet_char: "n < 64 \<Longrightarrow> char_sextet (sextet_char n) = Some n"
  using sextet_table by (simp add: list_all_iff)

lemma encode_groups_decodes:
  "\<forall>b \<in> set bs. b < 256 \<Longrightarrow>
     \<exists>ns. sextets (encode_groups bs) = Some ns \<and> decode_groups ns = bs"
proof (induction bs rule: encode_groups.induct)
  case (1 a b c rest)
  then obtain ns where ns: "sextets (encode_groups rest) = Some ns" "decode_groups ns = rest"
    by auto
  from 1(2) have lt: "a < 256" "b < 256" "c < 256" by simp_all
  have "sextets (encode_groups (a # b # c # rest)) =
          Some (a div 4 # ((a mod 4) * 16 + b div 16) # ((b mod 16) * 4 + c div 64) # (c mod 64) # ns)"
    by (simp only: encode_groups.simps sextets.simps char_sextet_sextet_char sextet_bounds[OF lt] ns
          option.simps option.map)
  then show ?case
    using decode_quad[OF lt(2,3), of a ns] ns(2) by simp
next
  case (2 a b)
  then have lt: "a < 256" "b < 256" by simp_all
  have "sextets (encode_groups [a, b]) = Some [a div 4, (a mod 4) * 16 + b div 16, (b mod 16) * 4]"
    by (simp only: encode_groups.simps sextets.simps char_sextet_sextet_char
          sextet_bounds[OF lt lt(1)] option.simps option.map)
  then show ?case
    using decode_triple[OF lt(2), of a] by simp
next
  case (3 a)
  then have lt: "a < 256" by simp
  have "sextets (encode_groups [a]) = Some [a div 4, (a mod 4) * 16]"
    by (simp only: encode_groups.simps sextets.simps char_sextet_sextet_char
          sextet_bounds[OF lt lt lt] option.simps option.map)
  then show ?case
    using decode_pair[of a] by simp
next
  case 4
  show ?case by simp
qed

lemma encode_groups_length:
  "length (encode_groups bs) mod 4 = [0, 2, 3] ! (length bs mod 3)"
  by (induction bs rule: encode_groups.induct) simp_all

lemma char_sextet_pad: "char_sextet (CHR ''='') = None"
  by code_simp

lemma whitespace_table:
  "list_all (\<lambda>n. char_sextet (char_of n) = None) [9, 10, 12, 13, 32 :: nat]"
  by code_simp

lemma whitespace_not_alphabet:
  assumes "ascii_whitespace c" shows "char_sextet c = None"
proof -
  from assms have "(of_char c :: nat) \<in> set [9, 10, 12, 13, 32]"
    by (simp add: ascii_whitespace_def)
  with whitespace_table have "char_sextet (char_of (of_char c :: nat)) = None"
    unfolding list_all_iff by blast
  then show ?thesis by simp
qed

lemma pad_not_whitespace: "\<not> ascii_whitespace (CHR ''='')"
  by (simp add: ascii_whitespace_def)

lemma sextets_chars: "sextets s = Some ns \<Longrightarrow> c \<in> set s \<Longrightarrow> char_sextet c \<noteq> None"
  by (induction s arbitrary: ns) (auto split: option.splits)

lemma strip_padding_encoded:
  assumes enc: "\<forall>c \<in> set e. c \<noteq> CHR ''=''"
    and len: "length e mod 4 = [0, 2, 3] ! (n mod 3)"
  shows "strip_padding (e @ replicate ((3 - n mod 3) mod 3) (CHR ''='')) = e"
proof -
  have "n mod 3 = 0 \<or> n mod 3 = 1 \<or> n mod 3 = 2" by arith
  then show ?thesis
  proof (elim disjE)
    assume n: "n mod 3 = 0"
    then have l: "length e mod 4 = 0" using len by simp
    show ?thesis
    proof (cases "rev e")
      case Nil
      then show ?thesis by (simp add: strip_padding_def n)
    next
      case (Cons c1 r)
      then have "c1 \<in> set e" by (metis list.set_intros(1) set_rev)
      then have "c1 \<noteq> CHR ''=''" using enc by blast
      then show ?thesis using Cons l by (simp add: strip_padding_def n split: list.splits)
    qed
  next
    assume n: "n mod 3 = 1"
    then have l: "length e mod 4 = 2" using len by simp
    then have "(length e + 2) mod 4 = 0" by presburger
    then show ?thesis by (simp add: strip_padding_def n numeral_2_eq_2)
  next
    assume n: "n mod 3 = 2"
    then have l: "length e mod 4 = 3" using len by (simp add: numeral_2_eq_2)
    then have l4: "(length e + 1) mod 4 = 0" by presburger
    from l have "e \<noteq> []" by auto
    then obtain c2 r where r: "rev e = c2 # r" by (cases "rev e") auto
    then have "c2 \<in> set e" by (metis list.set_intros(1) set_rev)
    then have c2: "c2 \<noteq> CHR ''=''" using enc by blast
    from r have e: "e = rev r @ [c2]" by (metis rev_rev_ident rev.simps(2))
    show ?thesis unfolding e using l4[unfolded e] c2 by (simp add: strip_padding_def n)
  qed
qed

lemma atob_btoa: "atob (btoa s) = Inr s"
proof -
  let ?bs = "map of_char s :: nat list"
  let ?e = "encode_groups ?bs"
  let ?pad = "replicate ((3 - length s mod 3) mod 3) (CHR ''='')"
  have "\<forall>b \<in> set ?bs. b < 256" by auto
  then obtain ns where ns: "sextets ?e = Some ns" "decode_groups ns = ?bs"
    using encode_groups_decodes by blast
  have alpha: "\<forall>c \<in> set ?e. char_sextet c \<noteq> None"
    using sextets_chars[OF ns(1)] by blast
  have nopad: "\<forall>c \<in> set ?e. c \<noteq> CHR ''=''"
    using alpha char_sextet_pad by auto
  have nows: "\<forall>c \<in> set ?e. \<not> ascii_whitespace c"
    using alpha whitespace_not_alphabet by auto
  have f: "filter (\<lambda>c. \<not> ascii_whitespace c) (btoa s) = ?e @ ?pad"
    using nows by (simp add: btoa_def pad_not_whitespace)
  have len: "length ?e mod 4 = [0, 2, 3] ! (length s mod 3)"
    using encode_groups_length[of ?bs] by simp
  have st: "strip_padding (?e @ ?pad) = ?e"
    by (rule strip_padding_encoded[OF nopad len])
  have l1: "length ?e mod 4 \<noteq> 1"
  proof -
    have "length s mod 3 = 0 \<or> length s mod 3 = 1 \<or> length s mod 3 = 2" by arith
    then show ?thesis using len by (auto simp: numeral_2_eq_2)
  qed
  have "map char_of (decode_groups ns) = s"
    by (simp add: ns(2) comp_def)
  then show ?thesis
    unfolding atob_def f st Let_def using l1 ns(1) by simp
qed

lemma decode_encode: "decode (encode bytes) = Inr bytes"
proof -
  have "map (\<lambda>c. word_of_nat (of_char c)) (map (\<lambda>b. char_of (unat b)) bytes) = (bytes :: uint8 list)"
  proof -
    have "unat x mod 256 = unat x" for x :: uint8
      using unsigned_less[of x, where ?'a = nat] by simp
    then show ?thesis by (simp add: comp_def)
  qed
  then show ?thesis
    by (simp add: decode_def encode_def atob_btoa)
qed

text \<open>
  C5. For every byte sequence \<open>B\<close>, decoding the base64 encoding of \<open>B\<close> succeeds and
  gives \<open>B\<close> back.
\<close>

theorem base64_roundtrip: "decode (encode B) = Inr B"
  by (rule decode_encode)

theorem base64_roundtrip_witness:
  "encode [104, 105, 255] = ''aGn/'' \<and> decode ''aGn/'' = Inr [104, 105, 255]"
proof -
  have e: "encode [104, 105, 255] = ''aGn/''" by code_simp
  from base64_roundtrip[of "[104, 105, 255]"] show ?thesis unfolding e by simp
qed

section \<open>Properties of the live session\<close>

subsection \<open>Playback schedule\<close>

lemma onmessage_audio_schedules:
  assumes "outputAudioContextRef s \<noteq> None" "audio_of m = Some b"
  shows "bufferSources (onmessage_audio now m s) =
           bufferSources s @ [\<lparr> startTime = max (nextStartTimeRef s) now, buffer = b \<rparr>]"
    and "nextStartTimeRef (onmessage_audio now m s) = max (nextStartTimeRef s) now + duration b"
    and "outputAudioContextRef (onmessage_audio now m s) = outputAudioContextRef s"
  using assms
  by (auto simp: onmessage_audio_def audio_of_def Let_def split: sum.splits option.splits if_splits)

lemma onmessage_before_audio:
  "bufferSources (onmessage_turnComplete cap m (onmessage_transcription m s)) = bufferSources s"
  "nextStartTimeRef (onmessage_turnComplete cap m (onmessage_transcription m s)) = nextStartTimeRef s"
  "outputAudioContextRef (onmessage_turnComplete cap m (onmessage_transcription m s))
     = outputAudioContextRef s"
  by (simp_all add: onmessage_turnComplete_def onmessage_transcription_def Let_def
        split: option.splits)

lemma onmessage_schedules:
  assumes "outputAudioContextRef s \<noteq> None" "audio_of m = Some b"
  shows "bufferSources (onmessage cap now m s) =
           bufferSources s @ [\<lparr> startTime = max (nextStartTimeRef s) now, buffer = b \<rparr>]"
    and "nextStartTimeRef (onmessage cap now m s) = max (nextStartTimeRef s) now + duration b"
    and "outputAudioContextRef (onmessage cap now m s) = outputAudioContextRef s"
proof -
  let ?s = "onmessage_turnComplete cap m (onmessage_transcription m s)"
  have c: "outputAudioContextRef ?s \<noteq> None" using assms(1) by (simp add: onmessage_before_audio)
  show "bufferSources (onmessage cap now m s) =
           bufferSources s @ [\<lparr> startTime = max (nextStartTimeRef s) now, buffer = b \<rparr>]"
    unfolding onmessage_def onmessage_audio_schedules(1)[OF c assms(2)]
    by (simp add: onmessage_before_audio)
  show "nextStartTimeRef (onmessage cap now m s) = max (nextStartTimeRef s) now + duration b"
    unfolding onmessage_def onmessage_audio_schedules(2)[OF c assms(2)]
    by (simp add: onmessage_before_audio)
  show "outputAudioContextRef (onmessage cap now m s) = outputAudioContextRef s"
    unfolding onmessage_def onmessage_audio_schedules(3)[OF c assms(2)]
    by (simp add: onmessage_before_audio)
qed

lemma receive_Cons: "receive cap s ((now, m) # ms) = receive cap (onmessage cap now m s) ms"
  by (simp add: receive_def)

lemma receive_refines:
  assumes "outputAudioContextRef s \<noteq> None"
    and "list_all2 (\<lambda>(now, m) b. audio_of m = Some b) ms bs"
  shows "bufferSources (receive cap s ms) =
           bufferSources s @ spec_enqueue (nextStartTimeRef s) (zip (map fst ms) bs)
         \<and> nextStartTimeRef (receive cap s ms) =
           spec_nextStartTime (nextStartTimeRef s) (zip (map fst ms) bs)"
  using assms(2,1)
proof (induction ms bs arbitrary: s rule: list_all2_induct)
  case Nil
  then show ?case by (simp add: receive_def)
next
  case (Cons x xs b bs)
  obtain now m where x: "x = (now, m)" by (cases x)
  with Cons.hyps have a: "audio_of m = Some b" by simp
  note step = onmessage_schedules[OF Cons.prems a, of cap now]
  have "outputAudioContextRef (onmessage cap now m s) \<noteq> None"
    using step(3) Cons.prems by simp
  from Cons.IH[OF this] show ?case
    by (simp add: x receive_Cons step(1,2) Let_def)
qed

lemma spec_enqueue_no_overlap_aux:
  "no_overlap (\<lparr> startTime = t, buffer = b \<rparr> # spec_enqueue (t + duration b) cs)"
proof (induction cs arbitrary: t b)
  case Nil
  then show ?case by simp
next
  case (Cons c cs)
  obtain now b' where c: "c = (now, b')" by (cases c)
  show ?case using Cons.IH[of "max (t + duration b) now" b'] by (simp add: c Let_def)
qed

lemma spec_enqueue_no_overlap: "no_overlap (spec_enqueue next cs)"
proof (cases cs)
  case Nil
  then show ?thesis by simp
next
  case (Cons c cs')
  obtain now b where c: "c = (now, b)" by (cases c)
  show ?thesis using spec_enqueue_no_overlap_aux[of "max next now" b cs'] by (simp add: Cons c Let_def)
qed

lemma spec_enqueue_no_gap:
  "no_idle_gap next cs \<Longrightarrow>
     map startTime (spec_enqueue next cs) = back_to_back next (map (\<lambda>(now, b). duration b) cs)"
proof (induction cs arbitrary: "next")
  case Nil
  then show ?case by simp
next
  case (Cons c cs)
  obtain now b where c: "c = (now, b)" by (cases c)
  from Cons.prems have "now \<le> next" "no_idle_gap (next + duration b) cs" by (simp_all add: c)
  then show ?case using Cons.IH[of "next + duration b"] by (simp add: c Let_def max_def)
qed

text \<open>
  C1. Let messages arrive that each carry a decodable audio chunk, while an output
  context exists. The sources that \<^verbatim>\<open>onmessage\<close> starts are those of the
  specification's scheduler: each starts at \<open>max(nextStartTime, currentClockTime)\<close> and
  moves \<open>nextStartTime\<close> to its end. No source starts before the one before it ends.
  When every chunk after the first arrives no later than the end of the audio scheduled
  so far, the start times are \<open>t, t + d1, t + d1 + d2, ...\<close>, where \<open>t\<close> is the start
  of the first.
\<close>

theorem playback_schedule_back_to_back:
  assumes "outputAudioContextRef s \<noteq> None"
    and "list_all2 (\<lambda>(currentTime, m) b. audio_of m = Some b) ms bs"
  shows "let chunks = zip (map fst ms) bs;
             new = drop (length (bufferSources s)) (bufferSources (receive cap s ms))
         in new = spec_enqueue (nextStartTimeRef s) chunks
          \<and> nextStartTimeRef (receive cap s ms) = spec_nextStartTime (nextStartTimeRef s) chunks
          \<and> no_overlap new
          \<and> (\<forall>now b rest.
                chunks = (now, b) # rest
                \<and> no_idle_gap (max (nextStartTimeRef s) now + duration b) rest
                \<longrightarrow> map startTime new =
                      back_to_back (max (nextStartTimeRef s) now)
                        (map (\<lambda>(t, b). duration b) chunks))"
proof -
  let ?chunks = "zip (map fst ms) bs"
  let ?new = "drop (length (bufferSources s)) (bufferSources (receive cap s ms))"
  note r = receive_refines[OF assms, of cap]
  have new: "?new = spec_enqueue (nextStartTimeRef s) ?chunks"
    by (simp add: r)
  have "map startTime (spec_enqueue (nextStartTimeRef s) ((now, b) # rest)) =
          back_to_back (max (nextStartTimeRef s) now) (map (\<lambda>(t, b). duration b) ((now, b) # rest))"
    if "no_idle_gap (max (nextStartTimeRef s) now + duration b) rest" for now b rest
    using spec_enqueue_no_gap[OF that] by (simp add: Let_def)
  then show ?thesis
    unfolding Let_def new using spec_enqueue_no_overlap r by auto
qed

theorem playback_schedule_back_to_back_witness:
  "map startTime
     (bufferSources
        (receive emptyTurn
           (handleStartLiveSession [CHR ''a'']
              (initialApp [\<lparr> agent_id = [CHR ''a''], name = [], persona = [], knowledgeBase = [],
                             greeting = [], callFlow = [], phoneNumber = [] \<rparr>] (Some [CHR ''k''])))
           [(5, \<lparr> serverContent = Some \<lparr> outputTranscription = None, inputTranscription = None,
                    turnComplete = False,
                    modelTurn = Some \<lparr> parts = Some [\<lparr> inlineData_data = Some ''AAAAAA=='' \<rparr>] \<rparr> \<rparr> \<rparr>),
            (5, \<lparr> serverContent = Some \<lparr> outputTranscription = None, inputTranscription = None,
                    turnComplete = False,
                    modelTurn = Some \<lparr> parts = Some [\<lparr> inlineData_data = Some ''AAA='' \<rparr>] \<rparr> \<rparr> \<rparr>),
            (5, \<lparr> serverContent = Some \<lparr> outputTranscription = None, inputTranscription = None,
                    turnComplete = False,
                    modelTurn = Some \<lparr> parts = Some [\<lparr> inlineData_data = Some ''/38AgA=='' \<rparr>] \<rparr> \<rparr> \<rparr>)]))
   = [5, 5 + 2 / 24000, 5 + 2 / 24000 + 1 / 24000]"
proof -
  let ?m1 = "\<lparr> serverContent = Some \<lparr> outputTranscription = None, inputTranscription = None,
                    turnComplete = False,
                    modelTurn = Some \<lparr> parts = Some [\<lparr> inlineData_data = Some ''AAAAAA=='' \<rparr>] \<rparr> \<rparr> \<rparr>"
  let ?m2 = "\<lparr> serverContent = Some \<lparr> outputTranscription = None, inputTranscription = None,
                    turnComplete = False,
                    modelTurn = Some \<lparr> parts = Some [\<lparr> inlineData_data = Some ''AAA='' \<rparr>] \<rparr> \<rparr> \<rparr>"
  let ?m3 = "\<lparr> serverContent = Some \<lparr> outputTranscription = None, inputTranscription = None,
                    turnComplete = False,
                    modelTurn = Some \<lparr> parts = Some [\<lparr> inlineData_data = Some ''/38AgA=='' \<rparr>] \<rparr> \<rparr> \<rparr>"
  let ?b1 = "\<lparr> sampleRate = 24000, channels = [[0, 0]] \<rparr>"
  let ?b2 = "\<lparr> sampleRate = 24000, channels = [[0]] \<rparr>"
  let ?b3 = "\<lparr> sampleRate = 24000, channels = [[32767 / 32768, - 1]] \<rparr>"
  let ?s = "handleStartLiveSession [CHR ''a'']
              (initialApp [\<lparr> agent_id = [CHR ''a''], name = [], persona = [], knowledgeBase = [],
                             greeting = [], callFlow = [], phoneNumber = [] \<rparr>] (Some [CHR ''k'']))"
  have a1: "audio_of ?m1 = Some ?b1" by code_simp
  have a2: "audio_of ?m2 = Some ?b2" by code_simp
  have a3: "audio_of ?m3 = Some ?b3" by code_simp
  have h1: "outputAudioContextRef ?s \<noteq> None" by code_simp
  have h2: "list_all2 (\<lambda>(currentTime, m) b. audio_of m = Some b)
              [(5, ?m1), (5, ?m2), (5, ?m3)] [?b1, ?b2, ?b3]"
    by (simp add: a1 a2 a3)
  have s: "nextStartTimeRef ?s = 0" "bufferSources ?s = []" by code_simp+
  from playback_schedule_back_to_back[OF h1 h2, of emptyTurn]
  show ?thesis
    by (simp add: Let_def s duration_def)
qed


subsection \<open>Transcript\<close>

lemma base64Audio_modelTurn:
  "base64Audio \<lparr> serverContent = Some \<lparr> outputTranscription = ot, inputTranscription = it,
                                        turnComplete = tc, modelTurn = mt \<rparr> \<rparr>
   = base64Audio \<lparr> serverContent = Some \<lparr> outputTranscription = ot', inputTranscription = it',
                                        turnComplete = tc', modelTurn = mt \<rparr> \<rparr>"
  by (simp add: base64Audio_def)

lemma onmessage_audio_keeps_transcript:
  "currentLiveTranscription (onmessage_audio now m s) = currentLiveTranscription s"
  "liveTranscript (onmessage_audio now m s) = liveTranscript s"
  by (simp_all add: onmessage_audio_def Let_def split: sum.splits option.splits)

lemma onmessage_audio_cong:
  "base64Audio m = base64Audio m' \<Longrightarrow> onmessage_audio now m s = onmessage_audio now m' s"
  by (simp add: onmessage_audio_def)

lemma turnComplete_pushes_captured:
  "liveTranscript
     (onmessage cap currentTime
        \<lparr> serverContent = Some \<lparr> outputTranscription = ot, inputTranscription = it,
                                 turnComplete = True, modelTurn = mt \<rparr> \<rparr> s)
   = liveTranscript s @ [cap]"
  by (simp add: onmessage_def onmessage_turnComplete_def onmessage_transcription_def Let_def
        onmessage_audio_def split: sum.splits option.splits)

lemma handleStart_captures_render:
  "find (\<lambda>a. agent_id a = agentId) (agents s) \<noteq> None \<Longrightarrow> truthy (API_KEY s) \<Longrightarrow>
     captured (connections (handleStartLiveSession agentId s) ! length (connections s))
       = currentLiveTranscription s"
  by (auto simp: handleStartLiveSession_def)

text \<open>
  C2, at the sequence of the claim. In a fresh session, after the input deltas
  \<open>hel\<close> and \<open>lo\<close> and the output delta \<open>hi\<close> the turn in progress is
  \<open>{hello, hi}\<close>. On the turn completion the turn in progress is reset, but the turn
  appended to the transcript is the value captured when the session was started, which
  is \<open>{"", ""}\<close>, not the accumulated \<open>{hello, hi}\<close>.
\<close>

theorem turn_complete_pushes_stale_snapshot:
  "(let s = run (initialApp [\<lparr> agent_id = ''a1'', name = ''Ada'', persona = ''p'',
              knowledgeBase = ''k'', greeting = ''g'', callFlow = ''{}'', phoneNumber = '''' \<rparr>] (Some ''key''))
          [StartLiveSession ''a1'', Open 0, ConnectResolved 0, MicrophoneGranted True,
           Message 0 1 \<lparr> serverContent = Some \<lparr> outputTranscription = None,
               inputTranscription = Some \<lparr> text_of = Some ''hel'' \<rparr>, turnComplete = False, modelTurn = None \<rparr> \<rparr>,
           Message 0 2 \<lparr> serverContent = Some \<lparr> outputTranscription = None,
               inputTranscription = Some \<lparr> text_of = Some ''lo'' \<rparr>, turnComplete = False, modelTurn = None \<rparr> \<rparr>,
           Message 0 3 \<lparr> serverContent = Some \<lparr> outputTranscription = Some \<lparr> text_of = Some ''hi'' \<rparr>,
               inputTranscription = None, turnComplete = False, modelTurn = None \<rparr> \<rparr>];
        s' = step s (Message 0 4 \<lparr> serverContent = Some \<lparr> outputTranscription = None,
               inputTranscription = None, turnComplete = True, modelTurn = None \<rparr> \<rparr>)
    in currentLiveTranscription s = \<lparr> userInput = ''hello'', agentResponse = ''hi'' \<rparr>
       \<and> liveTranscript s' = [\<lparr> userInput = '''', agentResponse = '''' \<rparr>]
       \<and> currentLiveTranscription s' = \<lparr> userInput = '''', agentResponse = '''' \<rparr>)"
  by code_simp

text \<open>
  C10. A message that carries both an output and an input transcription leaves the
  state that the same message without its input transcription leaves: the input text is
  dropped. Without a turn completion in the message, the turn in progress afterwards
  has the \<open>agentResponse\<close> it had before followed by the output text (by the word
  \<open>undefined\<close> when the transcription has no text), and the \<open>userInput\<close> it had
  before.
\<close>

theorem onmessage_output_transcription_wins:
  "let both = (\<lambda>tc. \<lparr> serverContent = Some \<lparr> outputTranscription = Some ot,
                        inputTranscription = Some it, turnComplete = tc, modelTurn = mt \<rparr> \<rparr>);
       output_only = (\<lambda>tc. \<lparr> serverContent = Some \<lparr> outputTranscription = Some ot,
                        inputTranscription = None, turnComplete = tc, modelTurn = mt \<rparr> \<rparr>);
       prev = currentLiveTranscription s;
       delta = (case text_of ot of None \<Rightarrow> ''undefined'' | Some x \<Rightarrow> x)
   in onmessage cap currentTime (both tc) s = onmessage cap currentTime (output_only tc) s
      \<and> currentLiveTranscription (onmessage cap currentTime (both False) s)
          = \<lparr> userInput = userInput prev, agentResponse = agentResponse prev @ delta \<rparr>
      \<and> agentResponse (currentLiveTranscription (onmessage cap currentTime (both False) s))
          = agentResponse prev @ delta
      \<and> userInput (currentLiveTranscription (onmessage cap currentTime (both False) s))
          = userInput prev"
proof -
  let ?both = "\<lambda>tc. \<lparr> serverContent = Some \<lparr> outputTranscription = Some ot,
                        inputTranscription = Some it, turnComplete = tc, modelTurn = mt \<rparr> \<rparr>"
  let ?only = "\<lambda>tc. \<lparr> serverContent = Some \<lparr> outputTranscription = Some ot,
                        inputTranscription = None, turnComplete = tc, modelTurn = mt \<rparr> \<rparr>"
  let ?prev = "currentLiveTranscription s"
  let ?delta = "case text_of ot of None \<Rightarrow> ''undefined'' | Some x \<Rightarrow> x"
  let ?s1 = "s\<lparr>currentLiveTranscription := ?prev\<lparr>agentResponse := plus_text (agentResponse ?prev) ot\<rparr>\<rparr>"
  have t: "onmessage_transcription (?both b) s = ?s1" "onmessage_transcription (?only b) s = ?s1" for b
    by (simp_all add: onmessage_transcription_def Let_def)
  have c: "onmessage_turnComplete cap (?both b) x = onmessage_turnComplete cap (?only b) x" for b x
    by (simp add: onmessage_turnComplete_def)
  have a: "onmessage_audio currentTime (?both b) x = onmessage_audio currentTime (?only b) x" for b x
    by (rule onmessage_audio_cong) (rule base64Audio_modelTurn)
  have 1: "onmessage cap currentTime (?both tc) s = onmessage cap currentTime (?only tc) s"
    by (simp only: onmessage_def t c a)
  have "onmessage_turnComplete cap (?both False) ?s1 = ?s1"
    by (simp add: onmessage_turnComplete_def)
  then have "onmessage cap currentTime (?both False) s = onmessage_audio currentTime (?both False) ?s1"
    by (simp only: onmessage_def t)
  then have "currentLiveTranscription (onmessage cap currentTime (?both False) s)
             = ?prev\<lparr>agentResponse := plus_text (agentResponse ?prev) ot\<rparr>"
    by (simp only: onmessage_audio_keeps_transcript) simp
  then have 2: "currentLiveTranscription (onmessage cap currentTime (?both False) s)
             = \<lparr> userInput = userInput ?prev, agentResponse = agentResponse ?prev @ ?delta \<rparr>"
    by (simp add: plus_text_def)
  show ?thesis
    unfolding Let_def using 1 2 by simp
qed

theorem onmessage_output_transcription_wins_witness:
  "(let s = onmessage \<lparr> userInput = [], agentResponse = [] \<rparr> 0
              \<lparr> serverContent = Some \<lparr> outputTranscription = None,
                   inputTranscription = Some \<lparr> text_of = Some ''you'' \<rparr>,
                   turnComplete = False, modelTurn = None \<rparr> \<rparr>
              (onmessage \<lparr> userInput = [], agentResponse = [] \<rparr> 0
                 \<lparr> serverContent = Some \<lparr> outputTranscription = Some \<lparr> text_of = Some ''hel'' \<rparr>,
                      inputTranscription = None,
                      turnComplete = False, modelTurn = None \<rparr> \<rparr>
                 (initialApp [] None))
    in currentLiveTranscription s = \<lparr> userInput = ''you'', agentResponse = ''hel'' \<rparr>
       \<and> currentLiveTranscription
            (onmessage \<lparr> userInput = [], agentResponse = [] \<rparr> 0
               \<lparr> serverContent = Some \<lparr> outputTranscription = Some \<lparr> text_of = Some ''lo'' \<rparr>,
                    inputTranscription = Some \<lparr> text_of = Some ''there'' \<rparr>,
                    turnComplete = False, modelTurn = None \<rparr> \<rparr> s)
           = \<lparr> userInput = ''you'', agentResponse = ''hello'' \<rparr>)"
proof -
  let ?s = "onmessage \<lparr> userInput = [], agentResponse = [] \<rparr> 0
              \<lparr> serverContent = Some \<lparr> outputTranscription = None,
                   inputTranscription = Some \<lparr> text_of = Some ''you'' \<rparr>,
                   turnComplete = False, modelTurn = None \<rparr> \<rparr>
              (onmessage \<lparr> userInput = [], agentResponse = [] \<rparr> 0
                 \<lparr> serverContent = Some \<lparr> outputTranscription = Some \<lparr> text_of = Some ''hel'' \<rparr>,
                      inputTranscription = None,
                      turnComplete = False, modelTurn = None \<rparr> \<rparr>
                 (initialApp [] None))"
  have p: "currentLiveTranscription ?s = \<lparr> userInput = ''you'', agentResponse = ''hel'' \<rparr>"
    by code_simp
  from onmessage_output_transcription_wins[of "\<lparr> text_of = Some ''lo'' \<rparr>" "\<lparr> text_of = Some ''there'' \<rparr>" None ?s
      "\<lparr> userInput = [], agentResponse = [] \<rparr>" 0 False,
      unfolded Let_def, THEN conjunct2, THEN conjunct1]
  show ?thesis
    unfolding Let_def p by simp
qed


subsection \<open>Stop, error, start\<close>

lemma length_modify_at [simp]: "length (modify_at i f xs) = length xs"
  by (simp add: modify_at_def)

lemma nth_modify_at:
  "k < length xs \<Longrightarrow> modify_at i f xs ! k = (if k = i then f (xs ! k) else xs ! k)"
  by (simp add: modify_at_def)

lemma length_close_context [simp]: "length (close_context r cs) = length cs"
  by (simp add: close_context_def split: option.splits)

lemma nth_close_context:
  "k < length cs \<Longrightarrow>
     close_context r cs ! k = (if r = Some k then (cs ! k)\<lparr>contextClosed := True\<rparr> else cs ! k)"
  by (auto simp: close_context_def nth_modify_at split: option.splits)

lemma close_context_twice:
  "close_context b (close_context a (close_context b (close_context a cs)))
     = close_context b (close_context a cs)"
  by (rule nth_equalityI) (simp_all add: nth_close_context)

lemma handleStop_fields:
  "sessionPromiseRef (handleStopLiveSession s) = None"
  "microphoneStreamRef (handleStopLiveSession s) = None"
  "scriptProcessorRef (handleStopLiveSession s) = None"
  "inputAudioContextRef (handleStopLiveSession s) = inputAudioContextRef s"
  "outputAudioContextRef (handleStopLiveSession s) = outputAudioContextRef s"
  "audioContexts (handleStopLiveSession s)
     = close_context (outputAudioContextRef s) (close_context (inputAudioContextRef s) (audioContexts s))"
  "connections (handleStopLiveSession s)
     = (case sessionPromiseRef s of None \<Rightarrow> connections s
        | Some p \<Rightarrow> modify_at p then_close (connections s))"
  "mediaStreams (handleStopLiveSession s)
     = (case microphoneStreamRef s of None \<Rightarrow> mediaStreams s
        | Some m \<Rightarrow> modify_at m (\<lambda>_. False) (mediaStreams s))"
  "scriptProcessors (handleStopLiveSession s)
     = (case scriptProcessorRef s of None \<Rightarrow> scriptProcessors s
        | Some n \<Rightarrow> modify_at n (\<lambda>_. False) (scriptProcessors s))"
  "audioSourcesRef (handleStopLiveSession s) = audioSourcesRef s"
  "bufferSources (handleStopLiveSession s) = bufferSources s"
  "nextStartTimeRef (handleStopLiveSession s) = nextStartTimeRef s"
  "liveStatus (handleStopLiveSession s) = ''Disconnected''"
  "isLiveSessionActive (handleStopLiveSession s) = False"
  by (simp_all add: handleStopLiveSession_def Let_def split: option.splits)

lemma handleStop_when_stopped:
  assumes "sessionPromiseRef s = None" "microphoneStreamRef s = None" "scriptProcessorRef s = None"
  shows "handleStopLiveSession s =
           s\<lparr> audioContexts :=
                 close_context (outputAudioContextRef s)
                   (close_context (inputAudioContextRef s) (audioContexts s)),
              isLiveSessionActive := False, liveStatus := ''Disconnected'' \<rparr>"
  using assms by (simp add: handleStopLiveSession_def Let_def)

lemma handleStop_idempotent:
  "handleStopLiveSession (handleStopLiveSession s) = handleStopLiveSession s"
proof -
  let ?s = "handleStopLiveSession s"
  have "handleStopLiveSession ?s =
          ?s\<lparr> audioContexts :=
                 close_context (outputAudioContextRef ?s)
                   (close_context (inputAudioContextRef ?s) (audioContexts ?s)),
              isLiveSessionActive := False, liveStatus := ''Disconnected'' \<rparr>"
    by (rule handleStop_when_stopped) (simp_all add: handleStop_fields)
  also have "\<dots> = ?s\<lparr> audioContexts := audioContexts ?s,
              isLiveSessionActive := isLiveSessionActive ?s, liveStatus := liveStatus ?s \<rparr>"
    by (simp only: handleStop_fields close_context_twice)
  also have "\<dots> = ?s" by simp
  finally show ?thesis .
qed

text \<open>
  C8, at every error. \<^verbatim>\<open>onerror\<close> writes the error message into the status and
  then calls \<^verbatim>\<open>handleStopLiveSession\<close>, whose last statement writes
  \<open>Disconnected\<close>: the status after the handler is \<open>Disconnected\<close>, never the error
  message.
\<close>

theorem onerror_status_overwritten:
  "liveStatus (onerror message s) = ''Disconnected''
   \<and> liveStatus (onerror message s) \<noteq> ''Error: '' @ message"
  by (simp add: onerror_def handleStop_fields)

text \<open>
  C9, as stated, fails on "playback cleared": after a stop the source that a message
  scheduled is still in \<^verbatim>\<open>audioSourcesRef\<close>, and nothing has stopped it.
\<close>

theorem stop_keeps_playback_counterexample:
  "(let s = run (initialApp [\<lparr> agent_id = ''a1'', name = ''Ada'', persona = ''p'',
              knowledgeBase = ''k'', greeting = ''g'', callFlow = ''{}'', phoneNumber = '''' \<rparr>] (Some ''key''))
          [StartLiveSession ''a1'', Open 0, ConnectResolved 0, MicrophoneGranted True,
           Message 0 1 \<lparr> serverContent = Some \<lparr> outputTranscription = None,
               inputTranscription = None, turnComplete = False,
               modelTurn = Some \<lparr> parts = Some [\<lparr> inlineData_data = Some ''AAAAAA=='' \<rparr>] \<rparr> \<rparr> \<rparr>,
           StopLiveSession]
    in liveStatus s = ''Disconnected''
       \<and> audioSourcesRef s = [0]
       \<and> map startTime (bufferSources s) = [1])"
  by code_simp

text \<open>
  C9, amended. \<^verbatim>\<open>handleStopLiveSession\<close> is idempotent, and on the component as
  first mounted it changes nothing. After it the status is \<open>Disconnected\<close>, the session
  is not active, the refs of the promise, the microphone and the script processor are
  empty; the session of the promise it held is closed, or will be when the promise
  resolves; the microphone stream is stopped, the script processor disconnected, and the
  input and the output context are closed. The set of playing sources and the sources
  themselves are left as they were.
\<close>

theorem handleStop_idempotent_keeps_playback:
  "(let s' = handleStopLiveSession s
    in handleStopLiveSession s' = s'
     \<and> handleStopLiveSession (initialApp as key) = initialApp as key
     \<and> liveStatus s' = ''Disconnected'' \<and> \<not> isLiveSessionActive s'
     \<and> sessionPromiseRef s' = None \<and> microphoneStreamRef s' = None \<and> scriptProcessorRef s' = None
     \<and> (\<forall>p. sessionPromiseRef s = Some p \<and> p < length (connections s)
            \<longrightarrow> (if resolved (connections s ! p) then sessionClosed (connections s' ! p)
                 else closeRequested (connections s' ! p)))
     \<and> (\<forall>m. microphoneStreamRef s = Some m \<and> m < length (mediaStreams s)
            \<longrightarrow> \<not> mediaStreams s' ! m)
     \<and> (\<forall>n. scriptProcessorRef s = Some n \<and> n < length (scriptProcessors s)
            \<longrightarrow> \<not> scriptProcessors s' ! n)
     \<and> (\<forall>i. (inputAudioContextRef s = Some i \<or> outputAudioContextRef s = Some i)
              \<and> i < length (audioContexts s)
            \<longrightarrow> contextClosed (audioContexts s' ! i))
     \<and> audioSourcesRef s' = audioSourcesRef s
     \<and> bufferSources s' = bufferSources s)"
proof -
  have init: "handleStopLiveSession (initialApp as key) = initialApp as key"
    by (simp add: handleStopLiveSession_def initialApp_def close_context_def)
  show ?thesis
    unfolding Let_def
    by (auto simp: handleStop_idempotent init handleStop_fields nth_modify_at nth_close_context
          then_close_def)
qed

theorem handleStop_idempotent_keeps_playback_witness:
  "(let s = run (initialApp [\<lparr> agent_id = ''a1'', name = ''Ada'', persona = ''p'',
              knowledgeBase = ''k'', greeting = ''g'', callFlow = ''{}'', phoneNumber = '''' \<rparr>] (Some ''key''))
          [StartLiveSession ''a1'', Open 0, ConnectResolved 0, MicrophoneGranted True];
        s' = handleStopLiveSession s
    in sessionPromiseRef s = Some 0 \<and> microphoneStreamRef s = Some 0
       \<and> inputAudioContextRef s = Some 1 \<and> outputAudioContextRef s = Some 0
       \<and> handleStopLiveSession s' = s'
       \<and> liveStatus s' = ''Disconnected''
       \<and> sessionClosed (connections s' ! 0)
       \<and> \<not> mediaStreams s' ! 0
       \<and> contextClosed (audioContexts s' ! 0) \<and> contextClosed (audioContexts s' ! 1))"
proof -
  let ?s = "run (initialApp [\<lparr> agent_id = ''a1'', name = ''Ada'', persona = ''p'',
              knowledgeBase = ''k'', greeting = ''g'', callFlow = ''{}'', phoneNumber = '''' \<rparr>] (Some ''key''))
          [StartLiveSession ''a1'', Open 0, ConnectResolved 0, MicrophoneGranted True]"
  have e: "sessionPromiseRef ?s = Some 0" "microphoneStreamRef ?s = Some 0"
    "inputAudioContextRef ?s = Some 1" "outputAudioContextRef ?s = Some 0"
    "length (connections ?s) = 1" "length (mediaStreams ?s) = 1" "length (audioContexts ?s) = 2"
    "resolved (connections ?s ! 0)"
    by code_simp+
  from handleStop_idempotent_keeps_playback[of ?s "[]" None] e
  show ?thesis
    unfolding Let_def by simp
qed

text \<open>
  C7, as stated, fails: started again while the first session is connecting,
  \<^verbatim>\<open>handleStartLiveSession\<close> raises no alert and opens a second connection and a
  second output context, and closes neither of the first.
\<close>

theorem start_while_active_counterexample:
  "(let s1 = handleStartLiveSession ''a1''
               (initialApp [\<lparr> agent_id = ''a1'', name = ''Ada'', persona = ''p'',
                  knowledgeBase = ''k'', greeting = ''g'', callFlow = ''{}'', phoneNumber = '''' \<rparr>]
                  (Some ''key''));
        s2 = handleStartLiveSession ''a1'' s1
    in isLiveSessionActive s1 \<and> liveStatus s1 = ''Connecting...''
       \<and> alerts s2 = []
       \<and> sessionPromiseRef s1 = Some 0 \<and> sessionPromiseRef s2 = Some 1
       \<and> map sessionClosed (connections s2) = [False, False]
       \<and> map closeRequested (connections s2) = [False, False]
       \<and> map contextClosed (audioContexts s2) = [False, False])"
  by code_simp

text \<open>
  C7, amended. \<^verbatim>\<open>handleStartLiveSession\<close> refuses, with an alert and no other
  change, exactly when the agent is not found or the API key is missing. Otherwise,
  whether or not a session is active, it sets the status to \<open>Connecting...\<close>, empties
  the transcript and the schedule, and begins a new pending connection and a new open
  output context at 24000 Hz, to which \<^verbatim>\<open>sessionPromiseRef\<close> and
  \<^verbatim>\<open>outputAudioContextRef\<close> then point. The connections and contexts that existed,
  the microphone, the input context and the script processor are left as they are.
\<close>

theorem handleStart_makes_no_active_check:
  "(let s' = handleStartLiveSession agentId s;
        refused = (find (\<lambda>a. agent_id a = agentId) (agents s) = None \<or> \<not> truthy (API_KEY s))
    in (refused \<longrightarrow> s' = s\<lparr>alerts := alerts s @ [''Agent not found or API key is missing.'']\<rparr>)
     \<and> (\<not> refused \<longrightarrow>
           alerts s' = alerts s
         \<and> isLiveSessionActive s' \<and> liveStatus s' = ''Connecting...''
         \<and> length (connections s') = Suc (length (connections s))
         \<and> take (length (connections s)) (connections s') = connections s
         \<and> sessionPromiseRef s' = Some (length (connections s))
         \<and> \<not> resolved (connections s' ! length (connections s))
         \<and> \<not> sessionClosed (connections s' ! length (connections s))
         \<and> length (audioContexts s') = Suc (length (audioContexts s))
         \<and> take (length (audioContexts s)) (audioContexts s') = audioContexts s
         \<and> \<not> closeRequested (connections s' ! length (connections s))
         \<and> outputAudioContextRef s' = Some (length (audioContexts s))
         \<and> audioContexts s' ! length (audioContexts s)
             = \<lparr> contextRate = 24000, contextClosed = False \<rparr>
         \<and> nextStartTimeRef s' = 0 \<and> audioSourcesRef s' = []
         \<and> liveTranscript s' = []
         \<and> currentLiveTranscription s' = \<lparr> userInput = [], agentResponse = [] \<rparr>
         \<and> inputAudioContextRef s' = inputAudioContextRef s
         \<and> microphoneStreamRef s' = microphoneStreamRef s
         \<and> scriptProcessorRef s' = scriptProcessorRef s
         \<and> mediaStreams s' = mediaStreams s
         \<and> scriptProcessors s' = scriptProcessors s
         \<and> bufferSources s' = bufferSources s))"
  by (auto simp: handleStartLiveSession_def Let_def emptyTurn_def split: option.splits)

theorem handleStart_makes_no_active_check_witness:
  "(let s1 = handleStartLiveSession ''a1''
               (initialApp [\<lparr> agent_id = ''a1'', name = ''Ada'', persona = ''p'',
                  knowledgeBase = ''k'', greeting = ''g'', callFlow = ''{}'', phoneNumber = [] \<rparr>]
                  (Some ''key''));
        s2 = handleStartLiveSession ''a1'' s1;
        s3 = handleStartLiveSession ''zz'' s1
    in isLiveSessionActive s1
       \<and> alerts s2 = [] \<and> length (connections s2) = 2 \<and> sessionPromiseRef s2 = Some 1
       \<and> outputAudioContextRef s2 = Some 1
       \<and> audioContexts s2 ! 1 = \<lparr> contextRate = 24000, contextClosed = False \<rparr>
       \<and> take 1 (audioContexts s2) = [\<lparr> contextRate = 24000, contextClosed = False \<rparr>]
       \<and> length (audioContexts s2) = 2
       \<and> \<not> closeRequested (connections s2 ! 1) \<and> \<not> sessionClosed (connections s2 ! 1)
       \<and> liveStatus s2 = ''Connecting...''
       \<and> s3 = s1\<lparr>alerts := [''Agent not found or API key is missing.'']\<rparr>)"
proof -
  let ?s1 = "handleStartLiveSession ''a1''
               (initialApp [\<lparr> agent_id = ''a1'', name = ''Ada'', persona = ''p'',
                  knowledgeBase = ''k'', greeting = ''g'', callFlow = ''{}'', phoneNumber = [] \<rparr>]
                  (Some ''key''))"
  have e: "isLiveSessionActive ?s1" "alerts ?s1 = []" "length (connections ?s1) = 1"
    "find (\<lambda>a. agent_id a = ''a1'') (agents ?s1) \<noteq> None"
    "find (\<lambda>a. agent_id a = ''zz'') (agents ?s1) = None"
    "truthy (API_KEY ?s1)"
    "audioContexts ?s1 = [\<lparr> contextRate = 24000, contextClosed = False \<rparr>]"
    by code_simp+
  from handleStart_makes_no_active_check[of "''a1''" ?s1]
       handleStart_makes_no_active_check[of "''zz''" ?s1] e
  show ?thesis
    unfolding Let_def by simp
qed

lemma connect_after_stop_closes_session:
  assumes "sessionPromiseRef s = Some p" "p < length (connections s)"
  shows "sessionClosed (connections (step (handleStopLiveSession s) (ConnectResolved p)) ! p)"
  using assms
  by (simp add: handleStopLiveSession_def Let_def modify_at_def then_close_def connect_resolved_def
        close_context_def split: option.splits)

text \<open>
  C3, at an execution of the claim. Stop is called while the connection is pending;
  then the transport opens (\<^verbatim>\<open>onopen\<close> asks for the microphone), the promise resolves
  (the session is closed at once, as \<open>connect_after_stop_closes_session\<close> shows in
  general), the transport closes, and the microphone is granted. At the end no session
  is active, the session is closed, and the microphone stream is open and held by
  \<^verbatim>\<open>microphoneStreamRef\<close>.
\<close>

theorem connect_after_stop_leaves_microphone_open:
  "\<forall>nodes.
     (let s = run (initialApp [\<lparr> agent_id = ''a1'', name = ''Ada'', persona = ''p'',
                knowledgeBase = ''k'', greeting = ''g'', callFlow = ''{}'', phoneNumber = '''' \<rparr>]
                (Some ''key''))
            [StartLiveSession ''a1'', StopLiveSession, Open 0, ConnectResolved 0, Close 0,
             MicrophoneGranted nodes]
      in \<not> isLiveSessionActive s
         \<and> liveStatus s = ''Disconnected''
         \<and> sessionPromiseRef s = None
         \<and> map sessionClosed (connections s) = [True]
         \<and> microphoneStreamRef s = Some 0
         \<and> mediaStreams s = [True]
         \<and> pendingGetUserMedia s = 0)"
  by code_simp

end
